theory Spec2Isabelle
  imports Main "HOL-Library.Sublist" "HOL-Library.Word"
begin

section \<open>Data model of \<open>generate-put-ssm.py\<close>\<close>

text \<open>
  The script creates one SecureString parameter in the SSM Parameter Store. Everything it
  reads from outside (the random source, the process environment, the configuration
  file, the remote store) is an explicit argument of the functions below; everything it
  does to the outside (lines on standard output and standard error, calls to the store,
  the exit status) is part of their results. A string is the list of its characters, a
  character outside ASCII being its UTF-8 bytes; the pattern, the placeholders and the
  keys the script looks for are ASCII, so nothing below depends on the difference.
\<close>

subsection \<open>JSON values and tags\<close>

text \<open>
  What \<open>json.load\<close> returns. An object keeps its members in document order, duplicates
  included; \<open>py_dict\<close> below is the Python dictionary built from them. A float is kept
  as its literal text: the script never inspects one.
\<close>

datatype json =
    JNull
  | JBool bool
  | JInt int
  | JFloat string
  | JString string
  | JArray "json list"
  | JObject "(string \<times> json) list"

text \<open>A tag is the dictionary \<open>{'Key': key, 'Value': value}\<close> of line 123.\<close>

record tag =
  Key :: string
  Value :: json

subsection \<open>Exceptions\<close>

text \<open>
  The exceptions the script can meet, each with the text \<open>str(e)\<close> gives. A
  \<open>ClientError\<close> also carries \<open>e.response['Error']['Code']\<close>.
\<close>

datatype exn =
    ValueError string
  | TypeError string
  | AttributeError string
  | FileNotFoundError string
  | JSONDecodeError string
  | ClientError string string
  | OtherException string

fun str_exn :: "exn \<Rightarrow> string" where
  "str_exn (ValueError m) = m"
| "str_exn (TypeError m) = m"
| "str_exn (AttributeError m) = m"
| "str_exn (FileNotFoundError m) = m"
| "str_exn (JSONDecodeError m) = m"
| "str_exn (ClientError code m) = m"
| "str_exn (OtherException m) = m"

subsection \<open>The remote store\<close>

text \<open>
  The two operations of the store client that the script calls. \<open>PutParameter\<close> lists
  the keyword arguments of lines 66 to 72 in their order: Name, Value, Type, Tags,
  Overwrite.
\<close>

datatype ssm_call =
    GetParameter string
  | PutParameter string string string "tag list" bool

text \<open>
  The client answers a call with a return value or an exception. The script ignores
  what a successful call returns, so a success is \<open>Inr ()\<close>.
\<close>

record ssm_client =
  get_parameter :: "string \<Rightarrow> exn + unit"
  put_parameter_api :: "ssm_call \<Rightarrow> exn + unit"

text \<open>
  What one run of \<open>put_parameter\<close> did: the calls it issued to the store and the lines
  it printed, both in order, and whether it returned or raised.
\<close>

record put_run =
  calls :: "ssm_call list"
  printed :: "string list"
  outcome :: "exn + unit"

section \<open>The value resolver (lines 48 to 50)\<close>

type_synonym byte = "8 word"

text \<open>
  \<open>bytes.hex()\<close>: two lowercase hexadecimal digits for each byte, the high one first.
\<close>

definition hexdigits :: string where
  "hexdigits = ''0123456789abcdef''"

definition hexdigit :: "nat \<Rightarrow> char" where
  "hexdigit n = hexdigits ! n"

definition hex_byte :: "byte \<Rightarrow> string" where
  "hex_byte b = [hexdigit (unat b div 16), hexdigit (unat b mod 16)]"

definition bytes_hex :: "byte list \<Rightarrow> string" where
  "bytes_hex bs = concat (map hex_byte bs)"

text \<open>
  \<open>secrets.token_hex(nbytes)\<close> reads \<open>nbytes\<close> bytes from the operating system's random
  source and renders them with \<open>bytes.hex()\<close>; a negative count raises \<open>ValueError\<close>.
  The random source is the function \<open>rng\<close>: its \<open>i\<close>-th value is the \<open>i\<close>-th byte read.
  Memory is unbounded here.
\<close>

definition token_bytes :: "(nat \<Rightarrow> byte) \<Rightarrow> int \<Rightarrow> exn + byte list" where
  "token_bytes rng nbytes =
    (if nbytes < 0 then Inl (ValueError ''negative argument not allowed'')
     else Inr (map rng [0..<nat nbytes]))"

definition token_hex :: "(nat \<Rightarrow> byte) \<Rightarrow> int \<Rightarrow> exn + string" where
  "token_hex rng nbytes =
    (case token_bytes rng nbytes of Inl e \<Rightarrow> Inl e | Inr bs \<Rightarrow> Inr (bytes_hex bs))"

text \<open>Line 50. Python's \<open>//\<close> rounds towards minus infinity, as \<open>div\<close> on \<open>int\<close> does.\<close>

definition generate_key :: "(nat \<Rightarrow> byte) \<Rightarrow> int \<Rightarrow> exn + string" where
  "generate_key rng key_len = token_hex rng (key_len div 8)"

text \<open>
  Reading a string of lowercase hexadecimal digits back into bytes, to state what a
  generated key decodes to.
\<close>

definition hexval :: "char \<Rightarrow> nat option" where
  "hexval c = (case filter (\<lambda>i. hexdigit i = c) [0..<16] of [] \<Rightarrow> None | i # _ \<Rightarrow> Some i)"

fun bytes_fromhex :: "string \<Rightarrow> byte list option" where
  "bytes_fromhex [] = Some []"
| "bytes_fromhex [c] = None"
| "bytes_fromhex (c # d # cs) =
     (case hexval c of None \<Rightarrow> None
      | Some h \<Rightarrow>
        (case hexval d of None \<Rightarrow> None
         | Some l \<Rightarrow>
           (case bytes_fromhex cs of None \<Rightarrow> None
            | Some bs \<Rightarrow> Some (of_nat (16 * h + l) # bs))))"

definition is_hex :: "string \<Rightarrow> bool" where
  "is_hex s = list_all (\<lambda>c. c \<in> set hexdigits) s"

text \<open>A random source used in the examples: every byte it yields is \<open>0xab\<close>.\<close>

definition sample_rng :: "nat \<Rightarrow> byte" where
  "sample_rng i = 0xab"

section \<open>Placeholder substitution (lines 113 to 121)\<close>

text \<open>The character classes \<open>[A-Z_]\<close> and \<open>[A-Z0-9_]\<close> of the pattern on line 113.\<close>

definition is_name_start :: "char \<Rightarrow> bool" where
  "is_name_start c = (c \<in> set ''ABCDEFGHIJKLMNOPQRSTUVWXYZ_'')"

definition is_name_char :: "char \<Rightarrow> bool" where
  "is_name_char c = (c \<in> set ''ABCDEFGHIJKLMNOPQRSTUVWXYZ0123456789_'')"

text \<open>
  A match of \<open>\$([A-Z_][A-Z0-9_]*)\$\<close> whose opening \<open>$\<close> has just been read: the
  argument is the text after that \<open>$\<close>, the result the captured name and the text
  after the closing \<open>$\<close>. The greedy \<open>*\<close> takes every name character; giving some back
  cannot help, since the character after a shorter run is a name character and not \<open>$\<close>.
\<close>

definition match_placeholder :: "string \<Rightarrow> (string \<times> string) option" where
  "match_placeholder s =
    (case s of
       [] \<Rightarrow> None
     | c # cs \<Rightarrow>
        if is_name_start c then
          (case dropWhile is_name_char cs of
             [] \<Rightarrow> None
           | d # rest \<Rightarrow>
              if d = CHR ''$'' then Some (c # takeWhile is_name_char cs, rest) else None)
        else None)"

lemma match_placeholder_shorter:
  "match_placeholder s = Some (name, rest) \<Longrightarrow> length rest < length s"
proof -
  assume m: "match_placeholder s = Some (name, rest)"
  then obtain c cs where s: "s = c # cs"
    by (cases s) (auto simp: match_placeholder_def)
  from m s have "dropWhile is_name_char cs = CHR ''$'' # rest"
    by (auto simp: match_placeholder_def split: if_splits list.splits)
  then have "length rest < length (dropWhile is_name_char cs)"
    by simp
  also have "\<dots> \<le> length cs"
    by (rule length_dropWhile_le)
  finally show ?thesis
    using s by simp
qed

text \<open>
  \<open>re.findall\<close> with one group: the captured names of the matches, found from left to
  right; the search resumes after a match, and one character further on where no match
  starts.
\<close>

function findall :: "string \<Rightarrow> string list" where
  "findall [] = []"
| "findall (c # cs) =
     (if c = CHR ''$'' then
        (case match_placeholder cs of
           Some (name, rest) \<Rightarrow> name # findall rest
         | None \<Rightarrow> findall cs)
      else findall cs)"
  by pat_completeness auto
termination
  by (relation "measure length") (auto dest: match_placeholder_shorter)

text \<open>
  \<open>str.replace(old, new)\<close>: every occurrence of \<open>old\<close>, found from left to right without
  overlap, becomes \<open>new\<close>. An empty \<open>old\<close> occurs before every character and at the end.
\<close>

function replace :: "string \<Rightarrow> string \<Rightarrow> string \<Rightarrow> string" where
  "replace old new [] = (if old = [] then new else [])"
| "replace old new (c # cs) =
     (if old = [] then new @ c # replace old new cs
      else if prefix old (c # cs) then new @ replace old new (drop (length old) (c # cs))
      else c # replace old new cs)"
  by pat_completeness auto
termination
  by (relation "measure (\<lambda>(old, new, s). length s)") auto

text \<open>The process environment: \<open>os.getenv(name)\<close> is \<open>env name\<close>.\<close>

type_synonym env = "string \<rightharpoonup> string"

definition apostrophe :: char where
  "apostrophe = CHR 0x27"

definition env_warning :: "string \<Rightarrow> string" where
  "env_warning placeholder =
    ''Environment variable '' @ [apostrophe] @ placeholder @ [apostrophe] @
    '' not found. Using original value.''"

text \<open>
  The loop of lines 114 to 121 over the names found on line 113. It returns the final
  value and the lines written to standard error.
\<close>

fun substitute_loop :: "env \<Rightarrow> string list \<Rightarrow> string \<Rightarrow> string \<times> string list" where
  "substitute_loop env [] val = (val, [])"
| "substitute_loop env (placeholder # ps) val =
     (case env placeholder of
        Some env_value \<Rightarrow>
          substitute_loop env ps (replace (''$'' @ placeholder @ ''$'') env_value val)
      | None \<Rightarrow>
          (case substitute_loop env ps val of
             (v, errs) \<Rightarrow> (v, env_warning placeholder # errs)))"

definition substitute_placeholders :: "env \<Rightarrow> string \<Rightarrow> string \<times> string list" where
  "substitute_placeholders env val = substitute_loop env (findall val) val"


section \<open>Placeholder substitution as the specification words it\<close>

text \<open>
  The specification describes the substitution in one step: scan the value for
  placeholders; a placeholder whose name is set is replaced by the variable's value, one
  whose name is not set stays as it is. \<open>pieces\<close> cuts a value the way \<open>findall\<close> scans it,
  into placeholders and the single characters between them, and \<open>substituted\<close> puts the
  result together. These definitions follow the specification, not the script.
\<close>

datatype piece = Literal string | Placeholder string

function pieces :: "string \<Rightarrow> piece list" where
  "pieces [] = []"
| "pieces (c # cs) =
     (if c = CHR ''$'' then
        (case match_placeholder cs of
           Some (name, rest) \<Rightarrow> Placeholder name # pieces rest
         | None \<Rightarrow> Literal [c] # pieces cs)
      else Literal [c] # pieces cs)"
  by pat_completeness auto
termination
  by (relation "measure length") (auto dest: match_placeholder_shorter)

fun render_piece :: "piece \<Rightarrow> string" where
  "render_piece (Literal t) = t"
| "render_piece (Placeholder n) = ''$'' @ n @ ''$''"

definition render :: "piece list \<Rightarrow> string" where
  "render ps = concat (map render_piece ps)"

fun expand :: "env \<Rightarrow> piece \<Rightarrow> string" where
  "expand env (Literal t) = t"
| "expand env (Placeholder n) = (case env n of Some v \<Rightarrow> v | None \<Rightarrow> ''$'' @ n @ ''$'')"

definition substituted :: "env \<Rightarrow> string \<Rightarrow> string" where
  "substituted env val = concat (map (expand env) (pieces val))"

text \<open>Replacing the placeholders of one name in a list of pieces by a literal text.\<close>

fun replace_piece :: "string \<Rightarrow> string \<Rightarrow> piece \<Rightarrow> piece" where
  "replace_piece n v (Literal t) = Literal t"
| "replace_piece n v (Placeholder m) = (if m = n then Literal v else Placeholder m)"

text \<open>
  The values on which the script's loop and the one-step substitution agree.
  \<open>begins_nowhere old t r\<close>: in the text \<open>t\<close> followed by \<open>r\<close>, the text \<open>old\<close> begins at no
  position of \<open>t\<close>. \<open>only_at_placeholders n ps\<close>: in the rendering of the pieces \<open>ps\<close>, a
  scan from left to right that steps over each placeholder of \<open>n\<close> finds the text
  of that placeholder beginning nowhere else: not in a literal text and not inside
  or at the closing \<open>$\<close> of a placeholder of another name. \<open>stray_free env ns ps\<close>
  follows the loop over the names \<open>ns\<close>: each time a name that is set is replaced, the
  text of its placeholder begins only at the placeholders of that name that still
  stand, the placeholders replaced before being literal text by then.
\<close>

fun begins_nowhere :: "string \<Rightarrow> string \<Rightarrow> string \<Rightarrow> bool" where
  "begins_nowhere old [] r = True"
| "begins_nowhere old (c # t) r = (\<not> prefix old (c # t @ r) \<and> begins_nowhere old t r)"

fun only_at_placeholders :: "string \<Rightarrow> piece list \<Rightarrow> bool" where
  "only_at_placeholders n [] = True"
| "only_at_placeholders n (p # ps) =
     ((p = Placeholder n \<or>
       begins_nowhere (''$'' @ n @ ''$'') (render_piece p) (render ps)) \<and>
      only_at_placeholders n ps)"

fun stray_free :: "env \<Rightarrow> string list \<Rightarrow> piece list \<Rightarrow> bool" where
  "stray_free env [] ps = True"
| "stray_free env (n # ns) ps =
     (case env n of
        None \<Rightarrow> stray_free env ns ps
      | Some v \<Rightarrow> only_at_placeholders n ps \<and> stray_free env ns (map (replace_piece n v) ps))"

definition no_stray_text :: "env \<Rightarrow> string \<Rightarrow> bool" where
  "no_stray_text env val = stray_free env (findall val) (pieces val)"

text \<open>Environments used in the examples.\<close>

definition env_both :: env where
  "env_both = map_of [(''PREFIX'', ''web''), (''STAGE_ID'', ''prod'')]"

definition env_prefix_only :: env where
  "env_prefix_only = map_of [(''PREFIX'', ''web'')]"

definition env_prefix_is_stage :: env where
  "env_prefix_is_stage = map_of [(''PREFIX'', ''$STAGE_ID$''), (''STAGE_ID'', ''prod'')]"




definition env_a_only :: env where
  "env_a_only = map_of [(''A'', ''x'')]"

section \<open>The tag loader (lines 76 to 156)\<close>

text \<open>
  The dictionary \<open>json.load\<close> builds from the members of an object: a repeated key keeps
  the place of its first member and the value of its last.
\<close>

fun dict_set :: "(string \<times> json) list \<Rightarrow> string \<Rightarrow> json \<Rightarrow> (string \<times> json) list" where
  "dict_set [] k v = [(k, v)]"
| "dict_set ((k', v') # d) k v = (if k' = k then (k, v) # d else (k', v') # dict_set d k v)"

fun py_dict_from :: "(string \<times> json) list \<Rightarrow> (string \<times> json) list \<Rightarrow> (string \<times> json) list" where
  "py_dict_from d [] = d"
| "py_dict_from d ((k, v) # members) = py_dict_from (dict_set d k v) members"

definition py_dict :: "(string \<times> json) list \<Rightarrow> (string \<times> json) list" where
  "py_dict members = py_dict_from [] members"

text \<open>
  A value as \<open>json.load\<close> returns it: every object in it, at any depth, is the dictionary
  built from its members.
\<close>

primrec py_value :: "json \<Rightarrow> json" where
  "py_value JNull = JNull"
| "py_value (JBool b) = JBool b"
| "py_value (JInt i) = JInt i"
| "py_value (JFloat f) = JFloat f"
| "py_value (JString s) = JString s"
| "py_value (JArray xs) = JArray (map py_value xs)"
| "py_value (JObject members) = JObject (py_dict (map (map_prod id py_value) members))"

text \<open>
  The loop of lines 107 to 123 over \<open>config_tags.items()\<close>: the tags in the order of the
  dictionary, and the lines written to standard error. \<open>substitute_value\<close> is lines 111
  to 121: a string has its placeholders substituted, any other value is kept as
  \<open>json.load\<close> returned it.
\<close>

fun substitute_value :: "env \<Rightarrow> json \<Rightarrow> json \<times> string list" where
  "substitute_value env (JString s) =
     (case substitute_placeholders env s of (s', errs) \<Rightarrow> (JString s', errs))"
| "substitute_value env v = (py_value v, [])"

fun process_tags :: "env \<Rightarrow> (string \<times> json) list \<Rightarrow> tag list \<times> string list" where
  "process_tags env [] = ([], [])"
| "process_tags env ((k, v) # items) =
     (case substitute_value env v of
        (v', errs1) \<Rightarrow>
          (case process_tags env items of
             (tags, errs2) \<Rightarrow> (\<lparr>Key = k, Value = v'\<rparr> # tags, errs1 @ errs2)))"

text \<open>The name Python gives the type of a JSON value, as its error messages print it.\<close>

fun py_type_name :: "json \<Rightarrow> string" where
  "py_type_name JNull = ''NoneType''"
| "py_type_name (JBool b) = ''bool''"
| "py_type_name (JInt i) = ''int''"
| "py_type_name (JFloat f) = ''float''"
| "py_type_name (JString s) = ''str''"
| "py_type_name (JArray xs) = ''list''"
| "py_type_name (JObject members) = ''dict''"

definition no_tags_warning :: string where
  "no_tags_warning = ''No Tags found in template-configuration.json. Using default tags.''"

text \<open>
  Lines 105 to 125 on the loaded document. \<open>'Tags' in config\<close> is a key test on a
  dictionary, an element test on a list and a substring test on a string, and raises
  \<open>TypeError\<close> on anything else; \<open>config['Tags']\<close> raises \<open>TypeError\<close> on a list and on a
  string; \<open>.items()\<close> raises \<open>AttributeError\<close> on anything but a dictionary. The texts of
  these three errors are CPython 3.12's.
\<close>

definition tags_of_config :: "env \<Rightarrow> json \<Rightarrow> exn + tag list \<times> string list" where
  "tags_of_config env config =
    (case config of
       JObject members \<Rightarrow>
         (case map_of (py_dict members) ''Tags'' of
            None \<Rightarrow> Inr ([], [no_tags_warning])
          | Some config_tags \<Rightarrow>
             (case config_tags of
                JObject tag_members \<Rightarrow> Inr (process_tags env (py_dict tag_members))
              | _ \<Rightarrow>
                 Inl (AttributeError
                   ([apostrophe] @ py_type_name config_tags @ [apostrophe] @
                    '' object has no attribute '' @ [apostrophe] @ ''items'' @ [apostrophe]))))
     | JArray xs \<Rightarrow>
         if JString ''Tags'' \<in> set xs
         then Inl (TypeError ''list indices must be integers or slices, not str'')
         else Inr ([], [no_tags_warning])
     | JString s \<Rightarrow>
         if sublist ''Tags'' s
         then Inl (TypeError
           (''string indices must be integers, not '' @ [apostrophe] @ ''str'' @ [apostrophe]))
         else Inr ([], [no_tags_warning])
     | _ \<Rightarrow>
         Inl (TypeError
           (''argument of type '' @ [apostrophe] @ py_type_name config @ [apostrophe] @
            '' is not iterable'')))"

text \<open>
  What opening a configuration file and passing it to \<open>json.load\<close> gives: the document,
  or the exception raised (\<open>JSONDecodeError\<close> for text that is not JSON).
\<close>

datatype load_result = Loaded json | Raises exn

text \<open>
  The two places searched on lines 82 to 85: \<open>None\<close> where \<open>os.path.exists\<close> is false,
  otherwise what loading the file there gives.
\<close>

record config_files =
  cwd_config :: "load_result option"
  parent_config :: "load_result option"

definition find_config :: "config_files \<Rightarrow> load_result option" where
  "find_config fs =
    (case cwd_config fs of Some r \<Rightarrow> Some r | None \<Rightarrow> parent_config fs)"

text \<open>The body of the \<open>try\<close> statement, lines 88 to 128.\<close>

definition read_tags :: "env \<Rightarrow> load_result option \<Rightarrow> exn + tag list \<times> string list" where
  "read_tags env config_file =
    (case config_file of
       None \<Rightarrow>
         Inl (FileNotFoundError
           ''template-configuration.json not found in current or parent directory'')
     | Some (Raises e) \<Rightarrow> Inl e
     | Some (Loaded config) \<Rightarrow> tags_of_config env config)"

text \<open>The three handlers of lines 130 to 135: the line each writes to standard error.\<close>

fun config_error_line :: "exn \<Rightarrow> string" where
  "config_error_line (FileNotFoundError m) =
     ''template-configuration.json not found in current or parent directory. Using default tags.''"
| "config_error_line (JSONDecodeError m) =
     ''Error decoding JSON from template-configuration.json. Using default tags.''"
| "config_error_line e = ''Error reading template-configuration.json: '' @ str_exn e"

text \<open>
  Lines 78 to 135: the tags read from the configuration and the lines written to
  standard error. No statement of the \<open>try\<close> body can raise once a tag has been
  appended, so a handler always runs with \<open>tags\<close> still empty.
\<close>

definition load_tags :: "env \<Rightarrow> config_files \<Rightarrow> tag list \<times> string list" where
  "load_tags env fs =
    (case read_tags env (find_config fs) of
       Inr (tags, errs) \<Rightarrow> (tags, errs)
     | Inl e \<Rightarrow> ([], [config_error_line e]))"

text \<open>
  Assigning to \<open>tag['Value']\<close> of the tag that \<open>next\<close> found: the first tag with that key.
\<close>

fun overwrite_first :: "string \<Rightarrow> json \<Rightarrow> tag list \<Rightarrow> tag list" where
  "overwrite_first k v [] = []"
| "overwrite_first k v (t # ts) =
     (if Key t = k then t\<lparr>Value := v\<rparr> # ts else t # overwrite_first k v ts)"

text \<open>Lines 138 to 142.\<close>

definition set_provisioner :: "tag list \<Rightarrow> tag list" where
  "set_provisioner tags =
    (case find (\<lambda>t. Key t = ''Provisioner'') tags of
       Some provisioner_tag \<Rightarrow> overwrite_first ''Provisioner'' (JString ''CodeBuild'') tags
     | None \<Rightarrow> tags @ [\<lparr>Key = ''Provisioner'', Value = JString ''CodeBuild''\<rparr>])"

text \<open>Lines 145 to 149; \<open>argv0\<close> is \<open>sys.argv[0]\<close>.\<close>

definition set_deployed_using :: "string \<Rightarrow> tag list \<Rightarrow> tag list" where
  "set_deployed_using argv0 tags =
    (case find (\<lambda>t. Key t = ''DeployedUsing'') tags of
       Some deployed_using_tag \<Rightarrow>
         overwrite_first ''DeployedUsing'' (JString ''Build Script'') tags
     | None \<Rightarrow>
         tags @ [\<lparr>Key = ''DeployedUsing'', Value = JString (''Build Script '' @ argv0)\<rparr>])"

text \<open>
  \<open>get_tags\<close>: the list it returns and the lines it writes to standard error. The
  listing of the tags on standard output (lines 152 to 154) changes nothing and is left
  out.
\<close>

definition get_tags :: "string \<Rightarrow> env \<Rightarrow> config_files \<Rightarrow> tag list \<times> string list" where
  "get_tags argv0 env fs =
    (case load_tags env fs of
       (tags, errs) \<Rightarrow> (set_deployed_using argv0 (set_provisioner tags), errs))"

text \<open>The values of the tags of a list that carry a given key.\<close>

definition values_of :: "string \<Rightarrow> tag list \<Rightarrow> json list" where
  "values_of k tags = map Value (filter (\<lambda>t. Key t = k) tags)"

section \<open>The parameter store client (lines 52 to 74)\<close>

definition put_parameter ::
  "ssm_client \<Rightarrow> string \<Rightarrow> string \<Rightarrow> tag list \<Rightarrow> bool \<Rightarrow> put_run" where
  "put_parameter ssm param_full_name val tags dryrun =
    (let checking = ''Checking for SSM Parameter: '' @ param_full_name @ '' ...'' in
     case get_parameter ssm param_full_name of
       Inr u \<Rightarrow>
         \<lparr>calls = [GetParameter param_full_name],
          printed = [checking, ''Parameter already exists. Skipping.''],
          outcome = Inr ()\<rparr>
     | Inl (ClientError code m) \<Rightarrow>
         if code = ''ParameterNotFound'' then
           (if dryrun then
              \<lparr>calls = [GetParameter param_full_name],
               printed = [checking, ''...parameter does not exist...'',
                          ''[DRYRUN] Would store parameter: '' @ param_full_name],
               outcome = Inr ()\<rparr>
            else
              (let req = PutParameter param_full_name val ''SecureString'' tags False in
               \<lparr>calls = [GetParameter param_full_name, req],
                printed = [checking, ''...parameter does not exist...'',
                           ''Storing parameter: '' @ param_full_name @ '' ...''],
                outcome = put_parameter_api ssm req\<rparr>))
         else
           \<lparr>calls = [GetParameter param_full_name],
            printed = [checking],
            outcome = Inl (ClientError code m)\<rparr>
     | Inl e \<Rightarrow>
         \<lparr>calls = [GetParameter param_full_name],
          printed = [checking],
          outcome = Inl e\<rparr>)"

section \<open>The main program (lines 158 to 206)\<close>

text \<open>The namespace \<open>parse_args\<close> returns.\<close>

record args =
  param_name :: string
  generate :: "int option"
  value_arg :: "string option"
  dryrun :: bool
  profile :: "string option"

text \<open>
  Everything outside the script that a run depends on. \<open>connect\<close> is lines 201 and 202:
  the session for a profile (\<open>None\<close> for the default session) and its SSM client, or the
  exception raised on the way.
\<close>

record world =
  rng :: "nat \<Rightarrow> byte"
  environ :: env
  files :: config_files
  argv0 :: string
  connect :: "string option \<Rightarrow> exn + ssm_client"

text \<open>How the process ends: \<open>main\<close> returns, calls \<open>sys.exit\<close>, or dies of an exception.\<close>

datatype ending = Returned | SysExit nat | Uncaught exn

fun exit_status :: "ending \<Rightarrow> nat" where
  "exit_status Returned = 0"
| "exit_status (SysExit n) = n"
| "exit_status (Uncaught e) = 1"

text \<open>
  What a run of \<open>main\<close> did: how it ended, the lines the script wrote to standard error
  and the calls it issued to the store. Standard output is left out.
\<close>

record run =
  ending_of :: ending
  stderr :: "string list"
  store_calls :: "ssm_call list"

text \<open>Lines 185 to 196.\<close>

definition resolve_value :: "world \<Rightarrow> args \<Rightarrow> exn + string" where
  "resolve_value w a =
    (case value_arg a of
       Some v \<Rightarrow> Inr v
     | None \<Rightarrow>
        (case generate a of
           Some bits \<Rightarrow> generate_key (rng w) bits
         | None \<Rightarrow> Inr ''BLANK''))"

text \<open>Line 201: an empty profile name is false in Python and selects the default session.\<close>

definition session_profile :: "args \<Rightarrow> string option" where
  "session_profile a =
    (case profile a of None \<Rightarrow> None | Some p \<Rightarrow> if p = [] then None else Some p)"

text \<open>\<open>main\<close> from line 172 on, after \<open>parse_args\<close> has returned the namespace \<open>a\<close>.\<close>

definition main :: "world \<Rightarrow> args \<Rightarrow> run" where
  "main w a =
    (if generate a \<noteq> None \<and> value_arg a \<noteq> None then
       \<lparr>ending_of = SysExit 1,
        stderr = [''Error: --generate and --value cannot be used together''],
        store_calls = []\<rparr>
     else if \<not> prefix ''/'' (param_name a) then
       \<lparr>ending_of = SysExit 1,
        stderr = [''Error: PARAM_NAME must start with a '' @ [apostrophe] @ ''/'' @ [apostrophe]],
        store_calls = []\<rparr>
     else
       (case resolve_value w a of
          Inl e \<Rightarrow> \<lparr>ending_of = Uncaught e, stderr = [], store_calls = []\<rparr>
        | Inr val \<Rightarrow>
           (case get_tags (argv0 w) (environ w) (files w) of
              (tags, errs) \<Rightarrow>
                (case connect w (session_profile a) of
                   Inl e \<Rightarrow>
                     \<lparr>ending_of = SysExit 1,
                      stderr = errs @ [''Error: '' @ str_exn e],
                      store_calls = []\<rparr>
                 | Inr ssm_client \<Rightarrow>
                     (let r = put_parameter ssm_client (param_name a) val tags (dryrun a) in
                      case outcome r of
                        Inr u \<Rightarrow>
                          \<lparr>ending_of = Returned, stderr = errs, store_calls = calls r\<rparr>
                      | Inl e \<Rightarrow>
                          \<lparr>ending_of = SysExit 1,
                           stderr = errs @ [''Error: '' @ str_exn e],
                           store_calls = calls r\<rparr>)))))"

section \<open>Notions used in the statements\<close>

text \<open>Whether a call creates (or overwrites) a parameter.\<close>

fun is_put :: "ssm_call \<Rightarrow> bool" where
  "is_put (PutParameter n v t tags ov) = True"
| "is_put (GetParameter n) = False"

text \<open>A store used in the examples: it answers every fetch and every create the same way.\<close>

definition fixed_store :: "exn + unit \<Rightarrow> exn + unit \<Rightarrow> ssm_client" where
  "fixed_store g p = \<lparr>get_parameter = (\<lambda>n. g), put_parameter_api = (\<lambda>c. p)\<rparr>"

text \<open>
  A world used in the examples: no configuration file, an empty environment, and a
  store that answers as \<open>fixed_store g p\<close> does under every profile.
\<close>

definition sample_world :: "exn + unit \<Rightarrow> exn + unit \<Rightarrow> world" where
  "sample_world g p =
    \<lparr>rng = sample_rng, environ = Map.empty,
     files = \<lparr>cwd_config = None, parent_config = None\<rparr>,
     argv0 = ''generate-put-ssm.py'',
     connect = (\<lambda>prof. Inr (fixed_store g p))\<rparr>"

definition sample_args :: "bool \<Rightarrow> args" where
  "sample_args d =
    \<lparr>param_name = ''/app/Key'', generate = Some 256, value_arg = None, dryrun = d,
     profile = None\<rparr>"

text \<open>The same world with a configuration file in the current directory that is not JSON.\<close>

definition malformed_world :: world where
  "malformed_world =
    (sample_world (Inr ()) (Inr ()))
      \<lparr>files := \<lparr>cwd_config = Some (Raises (JSONDecodeError ''Expecting value'')),
                 parent_config = None\<rparr>\<rparr>"

text \<open>
  A configuration used in the examples: its \<open>Tags\<close> object defines both provenance keys
  and a tag with a placeholder.
\<close>

definition sample_config :: json where
  "sample_config =
    JObject [(''Tags'', JObject [(''DeployedUsing'', JString ''SAM''),
                                 (''Provisioner'', JString ''CloudFormation''),
                                 (''Stage'', JString ''$STAGE_ID$'')])]"

definition sample_files :: config_files where
  "sample_files = \<lparr>cwd_config = Some (Loaded sample_config), parent_config = None\<rparr>"

definition no_files :: config_files where
  "no_files = \<lparr>cwd_config = None, parent_config = None\<rparr>"

text \<open>The two provenance tags as \<open>get_tags\<close> appends them to an empty list.\<close>

definition default_tags :: "string \<Rightarrow> tag list" where
  "default_tags prog =
    [\<lparr>Key = ''Provisioner'', Value = JString ''CodeBuild''\<rparr>,
     \<lparr>Key = ''DeployedUsing'', Value = JString (''Build Script '' @ prog)\<rparr>]"

section \<open>Properties of the parameter store client\<close>

lemma put_parameter_exists:
  "get_parameter ssm n = Inr u \<Longrightarrow>
   put_parameter ssm n v tags d =
     \<lparr>calls = [GetParameter n],
      printed = [''Checking for SSM Parameter: '' @ n @ '' ...'',
                 ''Parameter already exists. Skipping.''],
      outcome = Inr ()\<rparr>"
  by (simp add: put_parameter_def)

lemma put_parameter_calls_cases:
  "calls (put_parameter ssm n v tags d) = [GetParameter n] \<or>
   calls (put_parameter ssm n v tags d) =
     [GetParameter n, PutParameter n v ''SecureString'' tags False]"
  by (simp add: put_parameter_def Let_def split: sum.split exn.split)

lemma put_parameter_put_iff:
  "(\<exists>c \<in> set (calls (put_parameter ssm n v tags d)). is_put c) \<longleftrightarrow>
   (\<exists>m. get_parameter ssm n = Inl (ClientError ''ParameterNotFound'' m)) \<and> \<not> d"
  by (auto simp: put_parameter_def Let_def split: sum.split exn.split)

lemma put_parameter_other_failure:
  assumes "get_parameter ssm n = Inl e"
    and "\<forall>m. e \<noteq> ClientError ''ParameterNotFound'' m"
  shows "put_parameter ssm n v tags d =
     \<lparr>calls = [GetParameter n],
      printed = [''Checking for SSM Parameter: '' @ n @ '' ...''],
      outcome = Inl e\<rparr>"
  using assms by (cases e) (simp_all add: put_parameter_def)

lemma main_store_calls:
  "store_calls (main w a) = [] \<or>
   (\<exists>ssm v tags. connect w (session_profile a) = Inr ssm \<and>
      store_calls (main w a) = calls (put_parameter ssm (param_name a) v tags (dryrun a)))"
  by (auto simp: main_def Let_def split: sum.split prod.split)

lemma main_reaches_store:
  assumes "generate a = None \<or> value_arg a = None"
    and "prefix ''/'' (param_name a)"
    and "resolve_value w a = Inr v"
    and "connect w (session_profile a) = Inr ssm"
  shows "main w a =
    (let tags = fst (get_tags (argv0 w) (environ w) (files w));
         errs = snd (get_tags (argv0 w) (environ w) (files w));
         r = put_parameter ssm (param_name a) v tags (dryrun a)
     in case outcome r of
          Inr u \<Rightarrow> \<lparr>ending_of = Returned, stderr = errs, store_calls = calls r\<rparr>
        | Inl e \<Rightarrow>
            \<lparr>ending_of = SysExit 1, stderr = errs @ [''Error: '' @ str_exn e],
             store_calls = calls r\<rparr>)"
  using assms by (auto simp: main_def Let_def split: sum.split prod.split)

text \<open>
  C1. When the existence check reports that the parameter exists, \<open>put_parameter\<close>
  issues that one fetch and nothing else, whatever the dry-run flag; it never issues
  anything but the fetch, followed at most by one create with \<open>Overwrite\<close> false; a create
  is issued only when the check failed with \<open>ParameterNotFound\<close>; and a run of \<open>main\<close>
  whose client reports that the parameter exists issues no create.
\<close>

theorem existing_parameter_is_never_written:
  "(get_parameter ssm n = Inr u \<longrightarrow>
      calls (put_parameter ssm n v tags d) = [GetParameter n]) \<and>
   (calls (put_parameter ssm n v tags d) = [GetParameter n] \<or>
    calls (put_parameter ssm n v tags d) =
      [GetParameter n, PutParameter n v ''SecureString'' tags False]) \<and>
   ((\<exists>c \<in> set (calls (put_parameter ssm n v tags d)). is_put c) \<longrightarrow>
      (\<exists>m. get_parameter ssm n = Inl (ClientError ''ParameterNotFound'' m))) \<and>
   (connect w (session_profile a) = Inr ssm \<and> get_parameter ssm (param_name a) = Inr u \<longrightarrow>
      \<not> (\<exists>c \<in> set (store_calls (main w a)). is_put c))"
proof (intro conjI impI)
  assume "get_parameter ssm n = Inr u"
  then show "calls (put_parameter ssm n v tags d) = [GetParameter n]"
    by (simp add: put_parameter_exists)
next
  show "calls (put_parameter ssm n v tags d) = [GetParameter n] \<or>
    calls (put_parameter ssm n v tags d) =
      [GetParameter n, PutParameter n v ''SecureString'' tags False]"
    by (rule put_parameter_calls_cases)
next
  assume "\<exists>c \<in> set (calls (put_parameter ssm n v tags d)). is_put c"
  then show "\<exists>m. get_parameter ssm n = Inl (ClientError ''ParameterNotFound'' m)"
    by (simp only: put_parameter_put_iff)
next
  assume h: "connect w (session_profile a) = Inr ssm \<and> get_parameter ssm (param_name a) = Inr u"
  from main_store_calls [of w a] show "\<not> (\<exists>c \<in> set (store_calls (main w a)). is_put c)"
  proof
    assume "store_calls (main w a) = []"
    then show ?thesis by simp
  next
    assume "\<exists>ssm v tags. connect w (session_profile a) = Inr ssm \<and>
      store_calls (main w a) = calls (put_parameter ssm (param_name a) v tags (dryrun a))"
    then obtain v' tags' where
      "store_calls (main w a) = calls (put_parameter ssm (param_name a) v' tags' (dryrun a))"
      using h by auto
    then show ?thesis
      using h by (simp add: put_parameter_exists)
  qed
qed

theorem existing_parameter_is_never_written_witness:
  "calls (put_parameter (fixed_store (Inr ()) (Inr ())) ''/app/Key'' ''BLANK'' [] False)
     = [GetParameter ''/app/Key''] \<and>
   store_calls (main (sample_world (Inr ()) (Inr ())) (sample_args False))
     = [GetParameter ''/app/Key'']"
proof -
  have g: "get_parameter (fixed_store (Inr ()) (Inr ())) ''/app/Key'' = Inr ()"
    by (simp add: fixed_store_def)
  have c: "connect (sample_world (Inr ()) (Inr ())) (session_profile (sample_args False))
      = Inr (fixed_store (Inr ()) (Inr ()))"
    by (simp add: sample_world_def)
  have n: "param_name (sample_args False) = ''/app/Key''"
    by (simp add: sample_args_def)
  have r: "resolve_value (sample_world (Inr ()) (Inr ())) (sample_args False)
      = Inr (bytes_hex (map sample_rng [0..<32]))"
    by (simp add: resolve_value_def sample_args_def sample_world_def generate_key_def
        token_hex_def token_bytes_def)
  have m: "store_calls (main (sample_world (Inr ()) (Inr ())) (sample_args False))
      = [GetParameter ''/app/Key'']"
    using main_reaches_store [OF _ _ r c] g
    by (simp add: sample_args_def put_parameter_exists Let_def)
  from existing_parameter_is_never_written
    [of "fixed_store (Inr ()) (Inr ())" "''/app/Key''" "()" "''BLANK''" "[]" False
        "sample_world (Inr ()) (Inr ())" "sample_args False"]
  show ?thesis using g m by simp
qed

text \<open>
  C8. When the existence check fails with anything but \<open>ParameterNotFound\<close>,
  \<open>put_parameter\<close> raises that same exception after the one fetch: no create, no second
  fetch. A run of \<open>main\<close> that gets as far as the store then writes \<open>Error:\<close> and the
  exception's text as its last line on standard error and exits with status 1.
\<close>

theorem other_fetch_failure_is_propagated:
  assumes "get_parameter ssm (param_name a) = Inl e"
    and "\<forall>m. e \<noteq> ClientError ''ParameterNotFound'' m"
    and "generate a = None \<or> value_arg a = None"
    and "prefix ''/'' (param_name a)"
    and "resolve_value w a = Inr v"
    and "connect w (session_profile a) = Inr ssm"
  shows "outcome (put_parameter ssm (param_name a) v tags (dryrun a)) = Inl e \<and>
    calls (put_parameter ssm (param_name a) v tags (dryrun a)) = [GetParameter (param_name a)] \<and>
    store_calls (main w a) = [GetParameter (param_name a)] \<and>
    ending_of (main w a) = SysExit 1 \<and>
    exit_status (ending_of (main w a)) \<noteq> 0 \<and>
    stderr (main w a) =
      snd (get_tags (argv0 w) (environ w) (files w)) @ [''Error: '' @ str_exn e]"
proof -
  have p: "\<And>tags. put_parameter ssm (param_name a) v tags (dryrun a) =
     \<lparr>calls = [GetParameter (param_name a)],
      printed = [''Checking for SSM Parameter: '' @ param_name a @ '' ...''],
      outcome = Inl e\<rparr>"
    using assms(1,2) by (rule put_parameter_other_failure)
  have m: "main w a =
     \<lparr>ending_of = SysExit 1,
      stderr = snd (get_tags (argv0 w) (environ w) (files w)) @ [''Error: '' @ str_exn e],
      store_calls = [GetParameter (param_name a)]\<rparr>"
    using main_reaches_store [OF assms(3,4,5,6)] by (simp add: p Let_def)
  show ?thesis
    by (simp add: p m)
qed

theorem other_fetch_failure_is_propagated_witness:
  "store_calls (main (sample_world (Inl (ClientError ''AccessDeniedException'' ''denied'')) (Inr ()))
      (sample_args False)) = [GetParameter ''/app/Key''] \<and>
   ending_of (main (sample_world (Inl (ClientError ''AccessDeniedException'' ''denied'')) (Inr ()))
      (sample_args False)) = SysExit 1 \<and>
   last (stderr (main (sample_world (Inl (ClientError ''AccessDeniedException'' ''denied'')) (Inr ()))
      (sample_args False))) = ''Error: denied''"
proof -
  let ?e = "ClientError ''AccessDeniedException'' ''denied''"
  let ?w = "sample_world (Inl ?e) (Inr ())"
  have g: "get_parameter (fixed_store (Inl ?e) (Inr ())) (param_name (sample_args False)) = Inl ?e"
    by (simp add: fixed_store_def)
  have ne: "\<forall>m. ?e \<noteq> ClientError ''ParameterNotFound'' m"
    by simp
  have a1: "generate (sample_args False) = None \<or> value_arg (sample_args False) = None"
    by (simp add: sample_args_def)
  have a2: "prefix ''/'' (param_name (sample_args False))"
    by (simp add: sample_args_def)
  have r: "resolve_value ?w (sample_args False) = Inr (bytes_hex (map sample_rng [0..<32]))"
    by (simp add: resolve_value_def sample_args_def sample_world_def generate_key_def
        token_hex_def token_bytes_def)
  have c: "connect ?w (session_profile (sample_args False)) = Inr (fixed_store (Inl ?e) (Inr ()))"
    by (simp add: sample_world_def)
  from other_fetch_failure_is_propagated [OF g ne a1 a2 r c]
  show ?thesis
    by (simp add: sample_args_def)
qed

text \<open>
  C9. When the existence check fails with \<open>ParameterNotFound\<close> and the dry-run flag is
  set, \<open>put_parameter\<close> issues the fetch only, prints the line
  \<open>[DRYRUN] Would store parameter:\<close> with the parameter's name, and returns.
\<close>

theorem dry_run_creates_nothing:
  assumes "get_parameter ssm n = Inl (ClientError ''ParameterNotFound'' m)"
    and "d"
  shows "calls (put_parameter ssm n v tags d) = [GetParameter n] \<and>
    \<not> (\<exists>c \<in> set (calls (put_parameter ssm n v tags d)). is_put c) \<and>
    last (printed (put_parameter ssm n v tags d)) = ''[DRYRUN] Would store parameter: '' @ n \<and>
    outcome (put_parameter ssm n v tags d) = Inr ()"
  using assms by (simp add: put_parameter_def)

theorem dry_run_creates_nothing_witness:
  "calls (put_parameter (fixed_store (Inl (ClientError ''ParameterNotFound'' ''absent'')) (Inr ()))
      ''/app/Key'' ''BLANK'' [] True) = [GetParameter ''/app/Key''] \<and>
   last (printed (put_parameter
      (fixed_store (Inl (ClientError ''ParameterNotFound'' ''absent'')) (Inr ()))
      ''/app/Key'' ''BLANK'' [] True)) = ''[DRYRUN] Would store parameter: /app/Key''"
proof -
  have g: "get_parameter (fixed_store (Inl (ClientError ''ParameterNotFound'' ''absent'')) (Inr ()))
      ''/app/Key'' = Inl (ClientError ''ParameterNotFound'' ''absent'')"
    by (simp add: fixed_store_def)
  from dry_run_creates_nothing [OF g TrueI, of "''BLANK''" "[]"]
  show ?thesis by simp
qed

section \<open>Properties of the value resolver\<close>

lemma length_bytes_hex: "length (bytes_hex bs) = 2 * length bs"
  by (induction bs) (simp_all add: bytes_hex_def hex_byte_def)

lemma hexval_hexdigit_all: "list_all (\<lambda>n. hexval (hexdigit n) = Some n) [0..<16]"
  by code_simp

lemma hexval_hexdigit: "n < 16 \<Longrightarrow> hexval (hexdigit n) = Some n"
  using hexval_hexdigit_all by (auto simp: list_all_iff)

lemma hexdigit_is_hex: "n < 16 \<Longrightarrow> hexdigit n \<in> set hexdigits"
  unfolding hexdigit_def by (rule nth_mem) (simp add: hexdigits_def)

lemma byte_nibbles: "unat (b :: byte) div 16 < 16"
proof -
  have "unat b < 256" using unsigned_less [of b] by simp
  then show ?thesis by simp
qed

lemma byte_of_nibbles: "of_nat (16 * (unat (b :: byte) div 16) + unat b mod 16) = b"
  by simp

lemma bytes_fromhex_hex: "bytes_fromhex (bytes_hex bs) = Some bs"
proof (induction bs)
  case Nil
  show ?case by (simp add: bytes_hex_def)
next
  case (Cons b bs)
  have "bytes_hex (b # bs) = hexdigit (unat b div 16) # hexdigit (unat b mod 16) # bytes_hex bs"
    by (simp add: bytes_hex_def hex_byte_def)
  then show ?case
    using Cons.IH by (simp add: hexval_hexdigit byte_nibbles byte_of_nibbles)
qed

lemma is_hex_bytes_hex: "is_hex (bytes_hex bs)"
proof (induction bs)
  case Nil
  show ?case by (simp add: bytes_hex_def is_hex_def)
next
  case (Cons b bs)
  have "bytes_hex (b # bs) = hexdigit (unat b div 16) # hexdigit (unat b mod 16) # bytes_hex bs"
    by (simp add: bytes_hex_def hex_byte_def)
  then show ?case
    using Cons.IH hexdigit_is_hex [of "unat b div 16"] hexdigit_is_hex [of "unat b mod 16"]
      byte_nibbles [of b]
    by (simp add: is_hex_def)
qed

lemma generate_key_nonneg:
  "0 \<le> bits \<Longrightarrow> generate_key src bits = Inr (bytes_hex (map src [0..<nat (bits div 8)]))"
  by (simp add: generate_key_def token_hex_def token_bytes_def)

lemma generate_key_neg:
  "bits < 0 \<Longrightarrow> generate_key src bits = Inl (ValueError ''negative argument not allowed'')"
  by (simp add: generate_key_def token_hex_def token_bytes_def)

text \<open>
  C3. For a bit length \<open>b\<close> that is a positive multiple of 8, \<open>generate_key\<close> returns the
  hexadecimal rendering of the first \<open>b / 8\<close> bytes of the random source: \<open>b / 4\<close>
  characters, each a lowercase hexadecimal digit, which read back give those \<open>b / 8\<close>
  bytes.
\<close>

theorem generated_key_size:
  assumes "0 < b" and "b mod 8 = 0"
  shows "generate_key src b = Inr (bytes_hex (map src [0..<nat (b div 8)])) \<and>
    int (length (bytes_hex (map src [0..<nat (b div 8)]))) = b div 4 \<and>
    is_hex (bytes_hex (map src [0..<nat (b div 8)])) \<and>
    bytes_fromhex (bytes_hex (map src [0..<nat (b div 8)])) = Some (map src [0..<nat (b div 8)]) \<and>
    int (length (map src [0..<nat (b div 8)])) = b div 8"
proof -
  from assms have d: "b div 4 = 2 * (b div 8)" by presburger
  from assms have n: "0 \<le> b div 8" by simp
  show ?thesis
    using assms n by (simp add: generate_key_nonneg length_bytes_hex bytes_fromhex_hex is_hex_bytes_hex d)
qed

theorem generated_key_size_witness:
  "generate_key sample_rng 16 = Inr ''abab'' \<and> is_hex ''abab'' \<and>
   bytes_fromhex ''abab'' = Some [0xab, 0xab]"
proof -
  have m: "map sample_rng [0..<nat (16 div 8)] = [0xab, 0xab]"
    by code_simp
  have e: "bytes_hex [0xab, 0xab] = ''abab''"
    by code_simp
  have h: "(0::int) < 16" "(16::int) mod 8 = 0"
    by simp_all
  from generated_key_size [OF h, of sample_rng, unfolded m e] show ?thesis
    by blast
qed

text \<open>
  C2 as stated fails: a bit length of 12 is accepted and a key of one byte is returned.
\<close>

theorem twelve_bits_are_accepted:
  "generate_key sample_rng 12 = Inr ''ab''"
  by code_simp

text \<open>
  C2, amended. A bit length that is not a positive multiple of 8 is never rejected by
  the script: a non-negative one is divided by 8 rounding down, so the key has
  \<open>2 * (bits div 8)\<close> characters and fewer bits than asked for when \<open>bits\<close> is not a
  multiple of 8; a negative one makes \<open>token_hex\<close> raise \<open>ValueError\<close>. \<open>main\<close> passes
  the \<open>--generate\<close> argument to \<open>generate_key\<close> as it is.
\<close>

theorem bit_length_is_floored:
  assumes "\<not> (0 < bits \<and> bits mod 8 = 0)"
  shows "(0 \<le> bits \<longrightarrow>
      generate_key src bits = Inr (bytes_hex (map src [0..<nat (bits div 8)])) \<and>
      int (length (bytes_hex (map src [0..<nat (bits div 8)]))) = 2 * (bits div 8) \<and>
      (bits mod 8 \<noteq> 0 \<longrightarrow> 8 * (bits div 8) < bits)) \<and>
    (bits < 0 \<longrightarrow> generate_key src bits = Inl (ValueError ''negative argument not allowed'')) \<and>
    (generate a = Some bits \<and> value_arg a = None \<longrightarrow>
      resolve_value w a = generate_key (rng w) bits)"
proof -
  have "bits mod 8 \<noteq> 0 \<longrightarrow> 8 * (bits div 8) < bits"
    by presburger
  then show ?thesis
    by (simp add: generate_key_nonneg generate_key_neg length_bytes_hex resolve_value_def)
qed

theorem bit_length_is_floored_witness:
  "generate_key sample_rng 20 = Inr ''abab'' \<and> (8::int) * (20 div 8) < 20 \<and>
   generate_key sample_rng (- 8) = Inl (ValueError ''negative argument not allowed'')"
proof -
  have m: "map sample_rng [0..<nat (20 div 8)] = [0xab, 0xab]"
    by code_simp
  have e: "bytes_hex [0xab, 0xab] = ''abab''"
    by code_simp
  have h: "\<not> ((0::int) < 20 \<and> (20::int) mod 8 = 0)"
    by simp
  have n: "generate_key sample_rng (- 8) = Inl (ValueError ''negative argument not allowed'')"
    by (simp add: generate_key_neg)
  from bit_length_is_floored [OF h, of sample_rng, unfolded m e] n show ?thesis
    by simp
qed

section \<open>Properties of the tag loader\<close>

lemma keys_dict_set: "fst ` set (dict_set d k v) = insert k (fst ` set d)"
  by (induction d k v rule: dict_set.induct) auto

lemma distinct_dict_set: "distinct (map fst d) \<Longrightarrow> distinct (map fst (dict_set d k v))"
proof (induction d k v rule: dict_set.induct)
  case (1 k v)
  show ?case by simp
next
  case (2 k' v' d k v)
  then show ?case
    using keys_dict_set [of d k v] by (auto simp: image_iff)
qed

lemma distinct_py_dict_from:
  "distinct (map fst d) \<Longrightarrow> distinct (map fst (py_dict_from d members))"
  by (induction d members rule: py_dict_from.induct) (simp_all add: distinct_dict_set)

lemma distinct_py_dict: "distinct (map fst (py_dict members))"
  by (simp add: py_dict_def distinct_py_dict_from)

lemma keys_process_tags: "map Key (fst (process_tags env items)) = map fst items"
proof (induction items)
  case Nil
  show ?case by simp
next
  case (Cons kv items)
  obtain k v where kv: "kv = (k, v)"
    by (cases kv)
  show ?case
    using Cons.IH by (auto simp: kv split: prod.split)
qed

lemma distinct_process_tags:
  "process_tags env (py_dict members) = (tags, errs) \<Longrightarrow> distinct (map Key tags)"
  using keys_process_tags [of env "py_dict members"] by (simp add: distinct_py_dict)

lemma distinct_tags_of_config:
  "tags_of_config env config = Inr (tags, errs) \<Longrightarrow> distinct (map Key tags)"
  by (auto simp: tags_of_config_def split: json.splits option.splits if_splits
      dest: distinct_process_tags)

lemma distinct_load_tags: "distinct (map Key (fst (load_tags env fs)))"
proof (cases "read_tags env (find_config fs)")
  case (Inl e)
  then show ?thesis by (simp add: load_tags_def)
next
  case (Inr r)
  obtain tags errs where r: "r = (tags, errs)"
    by (cases r)
  from Inr r have "\<exists>config. tags_of_config env config = Inr (tags, errs)"
    by (auto simp: read_tags_def split: option.splits load_result.splits)
  then have "distinct (map Key tags)"
    by (auto dest: distinct_tags_of_config)
  with Inr r show ?thesis by (simp add: load_tags_def)
qed

lemma keys_overwrite_first: "map Key (overwrite_first k v tags) = map Key tags"
  by (induction tags) simp_all

lemma values_of_absent: "k \<notin> Key ` set tags \<Longrightarrow> values_of k tags = []"
  by (auto simp: values_of_def filter_empty_conv)

lemma values_overwrite_first:
  "distinct (map Key tags) \<Longrightarrow> k \<in> Key ` set tags \<Longrightarrow> values_of k (overwrite_first k v tags) = [v]"
proof (induction tags)
  case Nil
  then show ?case by simp
next
  case (Cons t ts)
  show ?case
  proof (cases "Key t = k")
    case True
    with Cons.prems have "k \<notin> Key ` set ts"
      by auto
    then have "values_of k ts = []"
      by (rule values_of_absent)
    with True show ?thesis by (simp add: values_of_def)
  next
    case False
    with Cons show ?thesis by (auto simp: values_of_def)
  qed
qed

lemma values_overwrite_other:
  "k' \<noteq> k \<Longrightarrow> values_of k' (overwrite_first k v tags) = values_of k' tags"
  by (induction tags) (auto simp: values_of_def)

lemma values_append_new:
  "k \<notin> Key ` set tags \<Longrightarrow> values_of k (tags @ [\<lparr>Key = k, Value = v\<rparr>]) = [v]"
  using values_of_absent [of k tags] by (simp add: values_of_def)

lemma values_append_other:
  "k' \<noteq> k \<Longrightarrow> values_of k' (tags @ [\<lparr>Key = k, Value = v\<rparr>]) = values_of k' tags"
  by (simp add: values_of_def)

lemma find_key: "(find (\<lambda>t. Key t = k) tags = None) = (k \<notin> Key ` set tags)"
  by (auto simp: find_None_iff)

lemma set_provisioner_if:
  "set_provisioner tags =
    (if ''Provisioner'' \<in> Key ` set tags
     then overwrite_first ''Provisioner'' (JString ''CodeBuild'') tags
     else tags @ [\<lparr>Key = ''Provisioner'', Value = JString ''CodeBuild''\<rparr>])"
  using find_key [of "''Provisioner''" tags]
  by (cases "find (\<lambda>t. Key t = ''Provisioner'') tags") (simp_all add: set_provisioner_def)

lemma set_deployed_using_if:
  "set_deployed_using prog tags =
    (if ''DeployedUsing'' \<in> Key ` set tags
     then overwrite_first ''DeployedUsing'' (JString ''Build Script'') tags
     else tags @ [\<lparr>Key = ''DeployedUsing'', Value = JString (''Build Script '' @ prog)\<rparr>])"
  using find_key [of "''DeployedUsing''" tags]
  by (cases "find (\<lambda>t. Key t = ''DeployedUsing'') tags") (simp_all add: set_deployed_using_def)

lemma set_provisioner_keys:
  "distinct (map Key tags) \<Longrightarrow> distinct (map Key (set_provisioner tags))"
  by (simp add: set_provisioner_if keys_overwrite_first)

lemma set_provisioner_value:
  "distinct (map Key tags) \<Longrightarrow> values_of ''Provisioner'' (set_provisioner tags) = [JString ''CodeBuild'']"
  by (simp add: set_provisioner_if values_append_new values_overwrite_first)

lemma set_provisioner_other:
  "k \<noteq> ''Provisioner'' \<Longrightarrow> values_of k (set_provisioner tags) = values_of k tags"
  by (simp add: set_provisioner_if values_append_other values_overwrite_other)

lemma set_provisioner_has_key:
  "k \<noteq> ''Provisioner'' \<Longrightarrow> k \<in> Key ` set (set_provisioner tags) \<longleftrightarrow> k \<in> Key ` set tags"
proof -
  assume k: "k \<noteq> ''Provisioner''"
  have "set (map Key (set_provisioner tags)) = set (map Key tags) \<or>
    set (map Key (set_provisioner tags)) = insert ''Provisioner'' (set (map Key tags))"
    by (simp add: set_provisioner_if keys_overwrite_first del: set_map)
  with k show ?thesis by auto
qed

lemma set_deployed_using_found:
  "distinct (map Key tags) \<Longrightarrow> ''DeployedUsing'' \<in> Key ` set tags \<Longrightarrow>
   values_of ''DeployedUsing'' (set_deployed_using prog tags) = [JString ''Build Script'']"
  by (simp add: set_deployed_using_if values_overwrite_first)

lemma set_deployed_using_absent:
  "''DeployedUsing'' \<notin> Key ` set tags \<Longrightarrow>
   values_of ''DeployedUsing'' (set_deployed_using prog tags) = [JString (''Build Script '' @ prog)]"
  by (simp add: set_deployed_using_if values_append_new)

lemma set_deployed_using_other:
  "k \<noteq> ''DeployedUsing'' \<Longrightarrow> values_of k (set_deployed_using prog tags) = values_of k tags"
  by (simp add: set_deployed_using_if values_append_other values_overwrite_other)

lemma keys_py_dict_from:
  "fst ` set (py_dict_from d members) = fst ` set d \<union> fst ` set members"
  by (induction d members rule: py_dict_from.induct) (auto simp: keys_dict_set)

lemma keys_py_dict: "fst ` set (py_dict members) = fst ` set members"
  by (simp add: py_dict_def keys_py_dict_from)

lemma loaded_keys:
  assumes "find_config fs = Some (Loaded (JObject members))"
    and "map_of (py_dict members) ''Tags'' = Some (JObject tag_members)"
  shows "Key ` set (fst (load_tags env fs)) = fst ` set tag_members"
proof -
  have "fst (load_tags env fs) = fst (process_tags env (py_dict tag_members))"
    using assms by (simp add: load_tags_def read_tags_def tags_of_config_def split: prod.split)
  then have "map Key (fst (load_tags env fs)) = map fst (py_dict tag_members)"
    by (simp add: keys_process_tags)
  then have "set (map Key (fst (load_tags env fs))) = set (map fst (py_dict tag_members))"
    by simp
  then show ?thesis
    by (simp add: keys_py_dict)
qed

lemma get_tags_fst:
  "fst (get_tags prog env fs) = set_deployed_using prog (set_provisioner (fst (load_tags env fs)))"
  by (simp add: get_tags_def split: prod.split)

lemma get_tags_snd: "snd (get_tags prog env fs) = snd (load_tags env fs)"
  by (simp add: get_tags_def split: prod.split)

lemma set_provenance_empty: "set_deployed_using prog (set_provisioner []) = default_tags prog"
  by (simp add: set_deployed_using_def set_provisioner_def default_tags_def)

lemma count_values_of: "length (filter (\<lambda>t. Key t = k) tags) = length (values_of k tags)"
  by (simp add: values_of_def)

text \<open>
  C5. Whatever the configuration files hold, the list \<open>get_tags\<close> returns has exactly one
  tag with key \<open>Provisioner\<close>, whose value is \<open>CodeBuild\<close>, and exactly one tag with key
  \<open>DeployedUsing\<close>.
\<close>

theorem provenance_tags_once:
  "length (filter (\<lambda>t. Key t = ''Provisioner'') (fst (get_tags prog env fs))) = 1 \<and>
   length (filter (\<lambda>t. Key t = ''DeployedUsing'') (fst (get_tags prog env fs))) = 1 \<and>
   values_of ''Provisioner'' (fst (get_tags prog env fs)) = [JString ''CodeBuild'']"
proof -
  let ?tags = "fst (load_tags env fs)"
  have d: "distinct (map Key ?tags)"
    by (rule distinct_load_tags)
  then have d': "distinct (map Key (set_provisioner ?tags))"
    by (rule set_provisioner_keys)
  have p: "values_of ''Provisioner'' (fst (get_tags prog env fs)) = [JString ''CodeBuild'']"
    using d by (simp add: get_tags_fst set_deployed_using_other set_provisioner_value)
  have "length (values_of ''DeployedUsing'' (fst (get_tags prog env fs))) = 1"
    using d' set_deployed_using_found [of "set_provisioner ?tags" prog]
      set_deployed_using_absent [of "set_provisioner ?tags" prog]
    by (cases "''DeployedUsing'' \<in> Key ` set (set_provisioner ?tags)") (simp_all add: get_tags_fst)
  with p show ?thesis
    by (simp add: count_values_of)
qed

theorem provenance_tags_once_witness:
  "length (filter (\<lambda>t. Key t = ''Provisioner'')
     (fst (get_tags ''generate-put-ssm.py'' Map.empty sample_files))) = 1 \<and>
   length (filter (\<lambda>t. Key t = ''DeployedUsing'')
     (fst (get_tags ''generate-put-ssm.py'' Map.empty sample_files))) = 1 \<and>
   length (filter (\<lambda>t. Key t = ''Provisioner'')
     (fst (get_tags ''generate-put-ssm.py'' Map.empty no_files))) = 1"
  using provenance_tags_once [of "''generate-put-ssm.py''" Map.empty sample_files]
    provenance_tags_once [of "''generate-put-ssm.py''" Map.empty no_files]
  by blast

text \<open>
  C6. When neither directory has the configuration file, or loading the file found
  raises (\<open>JSONDecodeError\<close> for a file that is not valid JSON, or any other exception),
  \<open>get_tags\<close> still returns: its list is the two provenance tags and nothing else, and it
  has written one warning. A run of \<open>main\<close> then goes on to the store with exactly these
  tags.
\<close>

theorem missing_or_malformed_config:
  assumes "(cwd_config (files w) = None \<and> parent_config (files w) = None) \<or>
     find_config (files w) = Some (Raises e)"
  shows "fst (get_tags (argv0 w) (environ w) (files w)) = default_tags (argv0 w) \<and>
    snd (get_tags (argv0 w) (environ w) (files w)) =
      [if find_config (files w) = None
       then ''template-configuration.json not found in current or parent directory. Using default tags.''
       else config_error_line e] \<and>
    ((generate a = None \<or> value_arg a = None) \<and> prefix ''/'' (param_name a) \<and>
      resolve_value w a = Inr v \<and> connect w (session_profile a) = Inr ssm \<longrightarrow>
      store_calls (main w a) =
        calls (put_parameter ssm (param_name a) v (default_tags (argv0 w)) (dryrun a)))"
proof -
  from assms have c: "find_config (files w) = None \<or> find_config (files w) = Some (Raises e)"
    by (auto simp: find_config_def)
  then have l: "load_tags (environ w) (files w) =
     ([], [if find_config (files w) = None
       then ''template-configuration.json not found in current or parent directory. Using default tags.''
       else config_error_line e])"
    by (auto simp: load_tags_def read_tags_def)
  have t: "fst (get_tags (argv0 w) (environ w) (files w)) = default_tags (argv0 w)"
    by (simp only: get_tags_fst l fst_conv set_provenance_empty)
  have e: "snd (get_tags (argv0 w) (environ w) (files w)) = snd (load_tags (environ w) (files w))"
    by (rule get_tags_snd)
  have "store_calls (main w a) =
        calls (put_parameter ssm (param_name a) v (default_tags (argv0 w)) (dryrun a))"
    if "generate a = None \<or> value_arg a = None" "prefix ''/'' (param_name a)"
      "resolve_value w a = Inr v" "connect w (session_profile a) = Inr ssm"
    using main_reaches_store [OF that] by (simp add: t Let_def split: sum.split)
  with t e l show ?thesis
    by simp
qed

theorem missing_or_malformed_config_witness:
  "fst (get_tags ''generate-put-ssm.py'' Map.empty no_files) =
     [\<lparr>Key = ''Provisioner'', Value = JString ''CodeBuild''\<rparr>,
      \<lparr>Key = ''DeployedUsing'', Value = JString ''Build Script generate-put-ssm.py''\<rparr>] \<and>
   snd (get_tags ''generate-put-ssm.py'' Map.empty no_files) =
     [''template-configuration.json not found in current or parent directory. Using default tags.''] \<and>
   fst (get_tags (argv0 malformed_world) (environ malformed_world) (files malformed_world)) =
     [\<lparr>Key = ''Provisioner'', Value = JString ''CodeBuild''\<rparr>,
      \<lparr>Key = ''DeployedUsing'', Value = JString ''Build Script generate-put-ssm.py''\<rparr>] \<and>
   snd (get_tags (argv0 malformed_world) (environ malformed_world) (files malformed_world)) =
     [''Error decoding JSON from template-configuration.json. Using default tags.'']"
proof -
  let ?w = "sample_world (Inr ()) (Inr ())"
  have f: "files ?w = no_files" "argv0 ?w = ''generate-put-ssm.py''" "environ ?w = Map.empty"
    by (simp_all add: sample_world_def no_files_def)
  have h: "(cwd_config (files ?w) = None \<and> parent_config (files ?w) = None) \<or>
     find_config (files ?w) = Some (Raises (JSONDecodeError []))"
    by (simp add: f no_files_def)
  have n: "find_config no_files = None"
    by (simp add: find_config_def no_files_def)
  have c: "find_config (files malformed_world) = Some (Raises (JSONDecodeError ''Expecting value''))"
    by (simp add: malformed_world_def find_config_def)
  then have h': "(cwd_config (files malformed_world) = None \<and>
       parent_config (files malformed_world) = None) \<or>
     find_config (files malformed_world) = Some (Raises (JSONDecodeError ''Expecting value''))"
    by simp
  have g: "argv0 malformed_world = ''generate-put-ssm.py''"
    by (simp add: malformed_world_def sample_world_def)
  from missing_or_malformed_config [OF h] missing_or_malformed_config [OF h']
  show ?thesis
    by (simp add: f n c g default_tags_def)
qed

text \<open>
  C10. When the tags loaded from the configuration have a \<open>DeployedUsing\<close> tag, its value
  becomes \<open>Build Script\<close>; when they have none, the appended tag's value is \<open>Build Script\<close>,
  a space and the program name. The two values differ whatever the program name. The
  loaded tags have the keys of the configuration's \<open>Tags\<close> object.
\<close>

theorem deployed_using_two_values:
  "(''DeployedUsing'' \<in> Key ` set (fst (load_tags env fs)) \<longrightarrow>
      values_of ''DeployedUsing'' (fst (get_tags prog env fs)) = [JString ''Build Script'']) \<and>
   (''DeployedUsing'' \<notin> Key ` set (fst (load_tags env fs)) \<longrightarrow>
      values_of ''DeployedUsing'' (fst (get_tags prog env fs)) =
        [JString (''Build Script '' @ prog)]) \<and>
   JString ''Build Script'' \<noteq> JString (''Build Script '' @ prog) \<and>
   (find_config fs = Some (Loaded (JObject members)) \<and>
    map_of (py_dict members) ''Tags'' = Some (JObject tag_members) \<longrightarrow>
      Key ` set (fst (load_tags env fs)) = fst ` set tag_members)"
proof -
  let ?tags = "fst (load_tags env fs)"
  have d: "distinct (map Key (set_provisioner ?tags))"
    using distinct_load_tags by (rule set_provisioner_keys)
  have k: "''DeployedUsing'' \<in> Key ` set (set_provisioner ?tags) \<longleftrightarrow>
      ''DeployedUsing'' \<in> Key ` set ?tags"
    by (rule set_provisioner_has_key) simp
  have 1: "values_of ''DeployedUsing'' (fst (get_tags prog env fs)) = [JString ''Build Script'']"
    if "''DeployedUsing'' \<in> Key ` set ?tags"
    unfolding get_tags_fst using d that [folded k] by (rule set_deployed_using_found)
  have 2: "values_of ''DeployedUsing'' (fst (get_tags prog env fs)) =
      [JString (''Build Script '' @ prog)]"
    if "''DeployedUsing'' \<notin> Key ` set ?tags"
    unfolding get_tags_fst using that [folded k] by (rule set_deployed_using_absent)
  have 3: "JString ''Build Script'' \<noteq> JString (''Build Script '' @ prog)"
    by simp
  have 4: "Key ` set ?tags = fst ` set tag_members"
    if "find_config fs = Some (Loaded (JObject members))"
      "map_of (py_dict members) ''Tags'' = Some (JObject tag_members)"
    using that by (rule loaded_keys)
  from 1 2 3 4 show ?thesis
    by blast
qed

theorem deployed_using_two_values_witness:
  "values_of ''DeployedUsing'' (fst (get_tags ''generate-put-ssm.py'' Map.empty sample_files))
     = [JString ''Build Script''] \<and>
   values_of ''DeployedUsing'' (fst (get_tags ''generate-put-ssm.py'' Map.empty no_files))
     = [JString ''Build Script generate-put-ssm.py'']"
proof -
  have a: "fst (load_tags Map.empty sample_files) =
      [\<lparr>Key = ''DeployedUsing'', Value = JString ''SAM''\<rparr>,
       \<lparr>Key = ''Provisioner'', Value = JString ''CloudFormation''\<rparr>,
       \<lparr>Key = ''Stage'', Value = JString ''$STAGE_ID$''\<rparr>]"
    by code_simp
  have b: "fst (load_tags Map.empty no_files) = []"
    by code_simp
  from deployed_using_two_values [of Map.empty sample_files "''generate-put-ssm.py''"]
    deployed_using_two_values [of Map.empty no_files "''generate-put-ssm.py''"]
  show ?thesis
    by (simp add: a b)
qed

section \<open>Properties of the placeholder substitution\<close>

lemma match_placeholder_text:
  "match_placeholder s = Some (name, rest) \<Longrightarrow> s = name @ CHR ''$'' # rest"
proof -
  assume m: "match_placeholder s = Some (name, rest)"
  then obtain c cs where s: "s = c # cs"
    by (cases s) (auto simp: match_placeholder_def)
  from m s have d: "dropWhile is_name_char cs = CHR ''$'' # rest"
    and n: "name = c # takeWhile is_name_char cs"
    by (auto simp: match_placeholder_def split: if_splits list.splits)
  have "cs = takeWhile is_name_char cs @ dropWhile is_name_char cs"
    by simp
  with d n s show ?thesis by simp
qed

lemma render_pieces: "render (pieces s) = s"
  by (induction s rule: pieces.induct)
    (auto simp: render_def split: option.split dest: match_placeholder_text)

lemma render_Cons: "render (p # ps) = render_piece p @ render ps"
  by (simp add: render_def)

lemma render_Nil: "render [] = []"
  by (simp add: render_def)

lemma findall_pieces: "Placeholder m \<in> set (pieces s) \<longleftrightarrow> m \<in> set (findall s)"
  by (induction s rule: pieces.induct) (auto split: option.split)

lemma replace_at_match: "old \<noteq> [] \<Longrightarrow> replace old new (old @ r) = new @ replace old new r"
  by (cases old) simp_all

lemma replace_begins_nowhere:
  "old \<noteq> [] \<Longrightarrow> begins_nowhere old t r \<Longrightarrow> replace old new (t @ r) = t @ replace old new r"
  by (induction t) simp_all

lemma replace_piece_other: "p \<noteq> Placeholder n \<Longrightarrow> replace_piece n v p = p"
  by (cases p) simp_all

lemma replace_render:
  "only_at_placeholders n ps \<Longrightarrow>
   replace (''$'' @ n @ ''$'') v (render ps) = render (map (replace_piece n v) ps)"
proof (induction ps)
  case Nil
  show ?case by (simp add: render_Nil)
next
  case (Cons p ps)
  let ?old = "''$'' @ n @ ''$''"
  from Cons have ih: "replace ?old v (render ps) = render (map (replace_piece n v) ps)"
    by simp
  show ?case
  proof (cases "p = Placeholder n")
    case True
    have "replace ?old v (?old @ render ps) = v @ replace ?old v (render ps)"
      by (rule replace_at_match) simp
    with True ih show ?thesis
      by (simp add: render_Cons)
  next
    case False
    with Cons.prems have "begins_nowhere ?old (render_piece p) (render ps)"
      by simp
    then have "replace ?old v (render_piece p @ render ps) = render_piece p @ replace ?old v (render ps)"
      by (intro replace_begins_nowhere) simp_all
    with False ih show ?thesis
      by (simp add: render_Cons replace_piece_other)
  qed
qed

lemma expand_unset:
  "\<forall>m. Placeholder m \<in> set ps \<longrightarrow> env m = None \<Longrightarrow> concat (map (expand env) ps) = render ps"
proof (induction ps)
  case Nil
  show ?case by (simp add: render_Nil)
next
  case (Cons p ps)
  then show ?case
    by (cases p) (simp_all add: render_Cons)
qed

lemma expand_replace_piece:
  "env n = Some v \<Longrightarrow> expand env (replace_piece n v p) = expand env p"
  by (cases p) simp_all

lemma placeholder_replace_piece:
  "Placeholder m \<in> set (map (replace_piece n v) ps) \<Longrightarrow> m \<noteq> n \<and> Placeholder m \<in> set ps"
proof (induction ps)
  case Nil
  then show ?case by simp
next
  case (Cons p ps)
  then show ?case
    by (cases p) (auto split: if_splits)
qed

lemma loop_on_pieces:
  "stray_free env ns ps \<Longrightarrow>
   \<forall>m. Placeholder m \<in> set ps \<longrightarrow> m \<in> set ns \<or> env m = None \<Longrightarrow>
   fst (substitute_loop env ns (render ps)) = concat (map (expand env) ps)"
proof (induction ns arbitrary: ps)
  case Nil
  then show ?case
    by (simp add: expand_unset)
next
  case (Cons n ns)
  show ?case
  proof (cases "env n")
    case None
    with Cons.prems(1) have s: "stray_free env ns ps"
      by simp
    from None Cons.prems(2) have "\<forall>m. Placeholder m \<in> set ps \<longrightarrow> m \<in> set ns \<or> env m = None"
      by auto
    with s have "fst (substitute_loop env ns (render ps)) = concat (map (expand env) ps)"
      by (rule Cons.IH)
    with None show ?thesis
      by (simp add: case_prod_beta)
  next
    case (Some v)
    let ?ps = "map (replace_piece n v) ps"
    from Some Cons.prems(1) have o: "only_at_placeholders n ps" and s: "stray_free env ns ?ps"
      by simp_all
    have r: "replace (''$'' @ n @ ''$'') v (render ps) = render ?ps"
      using o by (rule replace_render)
    have "\<forall>m. Placeholder m \<in> set ?ps \<longrightarrow> m \<in> set ns \<or> env m = None"
    proof (intro allI impI)
      fix m
      assume "Placeholder m \<in> set ?ps"
      then have "m \<noteq> n \<and> Placeholder m \<in> set ps"
        by (rule placeholder_replace_piece)
      with Cons.prems(2) show "m \<in> set ns \<or> env m = None"
        by auto
    qed
    with s have "fst (substitute_loop env ns (render ?ps)) = concat (map (expand env) ?ps)"
      by (rule Cons.IH)
    also have "\<dots> = concat (map (expand env) ps)"
      using Some by (simp add: expand_replace_piece comp_def)
    finally show ?thesis
      using Some r by simp
  qed
qed

lemma loop_warnings:
  "snd (substitute_loop env ns val) = map env_warning (filter (\<lambda>n. env n = None) ns)"
  by (induction ns arbitrary: val) (simp_all add: case_prod_beta split: option.split)



text \<open>
  C4 as stated fails, in two ways. In the value \<open>$B$A$ $A$\<close> the names found are \<open>B\<close> and
  \<open>A\<close>; with \<open>A\<close> set to \<open>x\<close> and \<open>B\<close> not set, the placeholder of \<open>B\<close> does not stay as
  it is, because its closing \<open>$\<close> is also the start of a text \<open>$A$\<close>. And with \<open>PREFIX\<close>
  set to \<open>$STAGE_ID$\<close> and \<open>STAGE_ID\<close> to \<open>prod\<close>, the placeholder of \<open>PREFIX\<close> in
  \<open>$PREFIX$-$STAGE_ID$\<close> does not end as the value of \<open>PREFIX\<close>, because the text brought in
  is replaced in the next turn of the loop.
\<close>

theorem unset_placeholder_is_changed:
  "findall ''$B$A$ $A$'' = [''B'', ''A''] \<and> env_a_only ''B'' = None \<and>
   substitute_placeholders env_a_only ''$B$A$ $A$'' = (''$Bx x'', [env_warning ''B'']) \<and>
   substitute_placeholders env_prefix_is_stage ''$PREFIX$-$STAGE_ID$'' = (''prod-prod'', []) \<and>
   substituted env_prefix_is_stage ''$PREFIX$-$STAGE_ID$'' = ''$STAGE_ID$-prod''"
  by code_simp

text \<open>
  C4, amended. Suppose that no turn of the loop hits a text that is not a placeholder:
  each time a name that is set is replaced, the text \<open>$NAME$\<close> begins in the current value
  only where a placeholder of that name found by the scan still stands, so neither at a
  \<open>$\<close> of another placeholder or of literal text nor in a value substituted before. Then
  the script's value is the one-step substitution: every placeholder whose name is set
  is replaced by the variable's value and every placeholder whose name is not set stays
  as it is; and for each found name that is not set one warning naming it is written, in
  the order found. A lone \<open>$\<close>, placeholders next to each other, name characters between
  placeholders and values with a \<open>$\<close> are all allowed.
\<close>

theorem substitution_without_stray_text:
  assumes "no_stray_text env val"
  shows "substitute_placeholders env val =
    (substituted env val, map env_warning (filter (\<lambda>n. env n = None) (findall val)))"
proof -
  have "fst (substitute_loop env (findall val) (render (pieces val)))
      = concat (map (expand env) (pieces val))"
    using assms by (intro loop_on_pieces) (simp_all add: no_stray_text_def findall_pieces)
  then have "fst (substitute_placeholders env val) = substituted env val"
    by (simp add: substitute_placeholders_def substituted_def render_pieces)
  moreover have "snd (substitute_placeholders env val)
      = map env_warning (filter (\<lambda>n. env n = None) (findall val))"
    by (simp add: substitute_placeholders_def loop_warnings)
  ultimately show ?thesis
    by (simp add: prod_eq_iff)
qed

theorem substitution_without_stray_text_witness:
  "substitute_placeholders env_both ''$PREFIX$-$STAGE_ID$'' = (''web-prod'', []) \<and>
   substitute_placeholders env_prefix_only ''$PREFIX$-$STAGE_ID$'' =
     (''web-$STAGE_ID$'', [env_warning ''STAGE_ID'']) \<and>
   substitute_placeholders env_both ''$PREFIX$_$STAGE_ID$'' = (''web_prod'', []) \<and>
   substitute_placeholders env_both ''$PREFIX$$STAGE_ID$'' = (''webprod'', []) \<and>
   substitute_placeholders env_both ''cost $5 $PREFIX$'' = (''cost $5 web'', []) \<and>
   substitute_placeholders env_both ''US$5'' = (''US$5'', [])"
proof -
  have h1: "no_stray_text env_both ''$PREFIX$-$STAGE_ID$''"
    and h2: "no_stray_text env_prefix_only ''$PREFIX$-$STAGE_ID$''"
    and h3: "no_stray_text env_both ''$PREFIX$_$STAGE_ID$''"
    and h4: "no_stray_text env_both ''$PREFIX$$STAGE_ID$''"
    and h5: "no_stray_text env_both ''cost $5 $PREFIX$''"
    and h6: "no_stray_text env_both ''US$5''"
    by code_simp+
  have s1: "substituted env_both ''$PREFIX$-$STAGE_ID$'' = ''web-prod''"
    and s2: "substituted env_prefix_only ''$PREFIX$-$STAGE_ID$'' = ''web-$STAGE_ID$''"
    and s3: "substituted env_both ''$PREFIX$_$STAGE_ID$'' = ''web_prod''"
    and s4: "substituted env_both ''$PREFIX$$STAGE_ID$'' = ''webprod''"
    and s5: "substituted env_both ''cost $5 $PREFIX$'' = ''cost $5 web''"
    and s6: "substituted env_both ''US$5'' = ''US$5''"
    by code_simp+
  have e1: "map env_warning (filter (\<lambda>n. env_both n = None) (findall ''$PREFIX$-$STAGE_ID$'')) = []"
    and e2: "map env_warning (filter (\<lambda>n. env_prefix_only n = None) (findall ''$PREFIX$-$STAGE_ID$''))
      = [env_warning ''STAGE_ID'']"
    and e3: "map env_warning (filter (\<lambda>n. env_both n = None) (findall ''$PREFIX$_$STAGE_ID$'')) = []"
    and e4: "map env_warning (filter (\<lambda>n. env_both n = None) (findall ''$PREFIX$$STAGE_ID$'')) = []"
    and e5: "map env_warning (filter (\<lambda>n. env_both n = None) (findall ''cost $5 $PREFIX$'')) = []"
    and e6: "map env_warning (filter (\<lambda>n. env_both n = None) (findall ''US$5'')) = []"
    by code_simp+
  from substitution_without_stray_text [OF h1] substitution_without_stray_text [OF h2]
    substitution_without_stray_text [OF h3] substitution_without_stray_text [OF h4]
    substitution_without_stray_text [OF h5] substitution_without_stray_text [OF h6]
  show ?thesis
    by (simp only: s1 s2 s3 s4 s5 s6 e1 e2 e3 e4 e5 e6)
qed




end
